theory Spec2Isabelle
  imports Main
begin

section \<open>The vocabulary game of \<^verbatim>\<open>src/vocab/flask_vocab.py\<close>\<close>

text \<open>
  The module is a Flask application with two handlers that touch the visitor's session:
  \<^verbatim>\<open>index\<close> starts a new game and \<^verbatim>\<open>check\<close> judges one submitted word.
  Both are embedded as functions from the session before the request to the session after
  it, paired with what the handler returns or raises.

  Python's \<^verbatim>\<open>str\<close> is modelled as \<^typ>\<open>string\<close>, \<^verbatim>\<open>int\<close> as \<^typ>\<open>int\<close>.
\<close>

subsection \<open>Errors, session, collaborators\<close>

text \<open>
  The exceptions a handler can raise. \<open>KeyError k\<close> is a read of \<^verbatim>\<open>flask.session[k]\<close>
  with \<open>k\<close> absent, \<open>AssertionError\<close> a failed \<^verbatim>\<open>assert\<close>, \<open>TypeError\<close> what
  \<^verbatim>\<open>int(None)\<close> raises. \<open>InvalidInput\<close> is the failure the specification gives the jumble
  generator on an empty word list.
\<close>

datatype error = KeyError string | AssertionError | TypeError | InvalidInput

text \<open>
  \<^verbatim>\<open>flask.session\<close> is a dictionary with the keys \<^verbatim>\<open>"jumble"\<close>,
  \<^verbatim>\<open>"target_count"\<close> and \<^verbatim>\<open>"matches"\<close>; a key that was never written is
  \<open>None\<close>.
\<close>

record session =
  s_jumble :: "string option"
  s_target_count :: "int option"
  s_matches :: "string list option"

text \<open>
  What the module imports and does not define: \<^verbatim>\<open>LetterBag\<close>, \<^verbatim>\<open>Vocab\<close>,
  \<^verbatim>\<open>jumbled\<close> and the configuration. They are parameters of the model, so every
  theorem about a handler holds for whatever these collaborators compute.
  \<^item> \<open>LetterBag_contains app jumble text\<close> is \<^verbatim>\<open>LetterBag(jumble).contains(text)\<close>;
  \<^item> \<open>WORDS_has app text\<close> is \<^verbatim>\<open>WORDS.has(text)\<close>, \<open>WORDS_as_list app\<close> is
    \<^verbatim>\<open>WORDS.as_list()\<close>;
  \<^item> \<open>jumbled app words n seed entropy\<close> is \<^verbatim>\<open>jumbled(words, n, seed=seed)\<close>, which may
    raise; \<open>entropy\<close> stands for the ambient randomness of the call, of a type \<open>'e\<close>
    left open;
  \<^item> \<open>SUCCESS_AT_COUNT app\<close> is \<^verbatim>\<open>CONFIG.SUCCESS_AT_COUNT\<close>;
  \<^item> \<open>SEED app\<close> is the module-level \<^verbatim>\<open>SEED\<close> once lines 34-38 have run.
  The two queries are taken to be pure and total on strings, as the specification
  describes them.
\<close>

record 'e app =
  LetterBag_contains :: "string \<Rightarrow> string \<Rightarrow> bool"
  WORDS_has :: "string \<Rightarrow> bool"
  WORDS_as_list :: "string list"
  jumbled :: "string list \<Rightarrow> int \<Rightarrow> int option \<Rightarrow> 'e \<Rightarrow> error + string"
  SUCCESS_AT_COUNT :: int
  SEED :: "int option"

text \<open>
  The JSON object a handler returns under \<^verbatim>\<open>result\<close>, as its list of key/value pairs
  in the order the source writes them.
\<close>

type_synonym json = "(string \<times> string) list"

subsection \<open>\<^verbatim>\<open>str.format\<close>\<close>

text \<open>
  \<^verbatim>\<open>template.format(*args)\<close> for templates whose only replacement fields are
  \<^verbatim>\<open>{}\<close>: each field is replaced by the next argument, which is inserted as it is and
  not scanned again. The three templates of \<^verbatim>\<open>check\<close> have as many fields as
  arguments; a field with no argument left (an \<^verbatim>\<open>IndexError\<close> in Python) is kept as
  text here and never arises.
\<close>

fun format_str :: "string \<Rightarrow> string list \<Rightarrow> string" where
  "format_str [] args = []"
| "format_str [c] args = [c]"
| "format_str (c # d # rest) args =
     (if c = CHR ''{'' \<and> d = CHR ''}''
      then (case args of
              [] \<Rightarrow> c # d # format_str rest args
            | a # as \<Rightarrow> a @ format_str rest as)
      else c # format_str (d # rest) args)"

subsection \<open>The form handler \<^verbatim>\<open>check\<close>\<close>

text \<open>
  Lines 86-116. \<open>text\<close> is the request's \<^verbatim>\<open>text\<close> argument, a string; a request
  without the argument, for which line 86 yields \<^verbatim>\<open>None\<close>, submits no word and is not
  modelled. The reads of the
  session raise \<^verbatim>\<open>KeyError\<close> in the order of the source: \<^verbatim>\<open>"jumble"\<close> at line 87,
  then, inside the eagerly evaluated log messages, \<^verbatim>\<open>"target_count"\<close> at line 94 and
  \<^verbatim>\<open>"matches"\<close> at line 95 (so the default \<^verbatim>\<open>[]\<close> of line 88 only ever reaches
  line 95). \<^verbatim>\<open>matches.append(text)\<close> followed by the store at line 100 leaves the session
  with the extended list. Every branch of the chain returns or raises, so lines 118-122 are
  never run and have no counterpart here.
\<close>

definition check :: "'e app \<Rightarrow> string \<Rightarrow> session \<Rightarrow> session \<times> (error + json)" where
  \<open>check app text s =
     (case s_jumble s of
        None \<Rightarrow> (s, Inl (KeyError ''jumble''))
      | Some jumble \<Rightarrow>
          let matches = (case s_matches s of None \<Rightarrow> [] | Some ms \<Rightarrow> ms);
              in_jumble = LetterBag_contains app jumble text;
              matched = WORDS_has app text
          in
          (case s_target_count s of
             None \<Rightarrow> (s, Inl (KeyError ''target_count''))
           | Some target_count \<Rightarrow>
               if s_matches s = None then (s, Inl (KeyError ''matches''))
               else if matched \<and> in_jumble \<and> \<not> (text \<in> set matches) then
                 let matches' = matches @ [text];
                     s' = s\<lparr>s_matches := Some matches'\<rparr>
                 in
                 if int (length matches') \<ge> target_count
                 then (s', Inr [(''status'', ''success'')])
                 else (s', Inr [(''status'', ''keep_going''), (''word'', text)])
               else if text \<in> set matches then
                 (s, Inr [(''status'', ''error''),
                          (''message'', format_str ''You already found {}'' [text])])
               else if \<not> matched then
                 (s, Inr [(''status'', ''error''),
                          (''message'', format_str ''{} isn't in the list of words'' [text])])
               else if \<not> in_jumble then
                 (s, Inr [(''status'', ''error''),
                          (''message'',
                           format_str ''"{}" can't be made from the letters {}''
                             [text, jumble])])
               else (s, Inl AssertionError)))\<close>

subsection \<open>The page handler \<^verbatim>\<open>index\<close> and the module-level seed\<close>

text \<open>
  Lines 34-38. \<^verbatim>\<open>CONFIG.SEED\<close> is classified by what Python's \<^verbatim>\<open>int()\<close> does with
  it: it converts to an integer \<open>k\<close>; or it is a string that is no integer literal, and
  \<^verbatim>\<open>int\<close> raises the \<^verbatim>\<open>ValueError\<close> that line 37 catches; or it is \<^verbatim>\<open>None\<close>, and
  \<^verbatim>\<open>int\<close> raises a \<^verbatim>\<open>TypeError\<close> that nothing catches.
\<close>

datatype config_seed = Converts int | Not_numeric | Is_None

fun module_SEED :: "config_seed \<Rightarrow> error + int option" where
  "module_SEED (Converts k) = Inr (Some k)"
| "module_SEED Not_numeric = Inr None"
| "module_SEED Is_None = Inl TypeError"

text \<open>
  Line 53: \<^verbatim>\<open>None if not SEED or SEED < 0 else SEED\<close>. \<^verbatim>\<open>not SEED\<close> is true of
  \<^verbatim>\<open>None\<close> and of the integer \<open>0\<close>; \<^verbatim>\<open>or\<close> evaluates \<^verbatim>\<open>SEED < 0\<close> only when
  \<^verbatim>\<open>not SEED\<close> is false.
\<close>

fun seed_argument :: "int option \<Rightarrow> int option" where
  "seed_argument None = None"
| "seed_argument (Some k) = (if k = 0 \<or> k < 0 then None else Some k)"

text \<open>
  Lines 49-59. The session is written key by key, so a raise leaves the keys written
  before it: the first component is the session dictionary as the handler leaves it. The
  result on return is the name of the rendered template.
\<close>

definition index :: "'e app \<Rightarrow> 'e \<Rightarrow> session \<Rightarrow> session \<times> (error + string)" where
  "index app entropy s =
     (let vocab = WORDS_as_list app;
          target_count = min (int (length vocab)) (SUCCESS_AT_COUNT app);
          s1 = s\<lparr>s_target_count := Some target_count\<rparr>
      in
      case jumbled app vocab target_count (seed_argument (SEED app)) entropy of
        Inl e \<Rightarrow> (s1, Inl e)
      | Inr jumble \<Rightarrow>
          let s2 = s1\<lparr>s_jumble := Some jumble\<rparr>;
              s3 = s2\<lparr>s_matches := Some []\<rparr>
          in
          if s_matches s3 \<noteq> Some [] then (s3, Inl AssertionError)
          else if \<not> (case s_target_count s3 of Some n \<Rightarrow> n > 0 | None \<Rightarrow> False)
          then (s3, Inl AssertionError)
          else (s3, Inr ''vocab.html''))"

text \<open>
  A visitor's session through a sequence of submissions: each request starts from the
  session the previous one left.
\<close>

fun submit_all :: "'e app \<Rightarrow> string list \<Rightarrow> session \<Rightarrow> session" where
  "submit_all app [] s = s"
| "submit_all app (text # rest) s = submit_all app rest (fst (check app text s))"

subsection \<open>The collaborators as the specification describes them\<close>

text \<open>
  Modelled from the spec: \<^verbatim>\<open>LetterBag(jumble).contains(candidate)\<close>, whose module
  \<^verbatim>\<open>src/letterbag.py\<close> is not part of the sources. Section 4.1: true iff, for every
  character of the candidate, its count in the candidate does not exceed its count in
  the multiset of the jumble; an absent character counts zero.
\<close>

definition letterbag_contains :: "string \<Rightarrow> string \<Rightarrow> bool" where
  "letterbag_contains jumble candidate =
     list_all (\<lambda>c. count_list candidate c \<le> count_list jumble c) candidate"

text \<open>
  Modelled from the spec: \<^verbatim>\<open>Vocab.has(word)\<close>, whose module \<^verbatim>\<open>src/vocab.py\<close> is
  not part of the sources. Section 4.2: an exact membership test in the word list.
\<close>

definition vocab_has :: "string list \<Rightarrow> string \<Rightarrow> bool" where
  "vocab_has words word = (word \<in> set words)"

text \<open>
  Modelled from the spec: the pseudo-random sequence behind the permutation of section
  4.3, a linear congruential generator on Python integers.
\<close>

definition lcg_next :: "int \<Rightarrow> int" where
  "lcg_next r = (75 * r + 74) mod 65537"

text \<open>
  Modelled from the spec: the randomized permutation of section 4.3. \<open>draw_all n r pool\<close>
  draws \<open>n\<close> letters from the pool without replacement, each at the position the current
  state \<open>r\<close> of the sequence selects; \<open>shuffle\<close> draws them all.
\<close>

primrec draw_all :: "nat \<Rightarrow> int \<Rightarrow> 'a list \<Rightarrow> 'a list" where
  "draw_all 0 r pool = []"
| "draw_all (Suc n) r pool =
     (if pool = [] then []
      else let i = nat (r mod int (length pool))
           in pool ! i # draw_all n (lcg_next r) (take i pool @ drop (Suc i) pool))"

text \<open>
  Modelled from the spec: the permutation of the whole letter pool, section 4.3.
\<close>

definition shuffle :: "int \<Rightarrow> 'a list \<Rightarrow> 'a list" where
  "shuffle r pool = draw_all (length pool) r pool"

text \<open>
  Modelled from the spec: \<^verbatim>\<open>jumbled(words, n, seed)\<close>, whose module
  \<^verbatim>\<open>src/jumble.py\<close> is not part of the sources. Section 4.3: the letters of \<open>n\<close> words
  of the list form the pool, and the result is a permutation of the pool drawn from a
  pseudo-random sequence; with a non-negative seed the sequence starts from the seed, with
  a negative seed or none it starts from the ambient randomness of the call; an empty word list fails with
  \<open>InvalidInput\<close>. The generator of the sequence and the choice of the first \<open>n\<close> words
  are this model's: the specification fixes neither.
\<close>

definition generate :: "string list \<Rightarrow> int \<Rightarrow> int option \<Rightarrow> int \<Rightarrow> error + string" where
  "generate words n seed entropy =
     (if words = [] then Inl InvalidInput
      else Inr (shuffle (case seed of
                           Some k \<Rightarrow> if k < 0 then entropy else k
                         | None \<Rightarrow> entropy)
                        (concat (take (nat n) words))))"

text \<open>
  Modelled from the spec: the application over a word list, a success threshold and a
  module-level seed, its collaborators being the three modelled above.
\<close>

definition spec_app :: "string list \<Rightarrow> int \<Rightarrow> int option \<Rightarrow> int app" where
  "spec_app words threshold seed =
     \<lparr>LetterBag_contains = letterbag_contains,
      WORDS_has = vocab_has words,
      WORDS_as_list = words,
      jumbled = generate,
      SUCCESS_AT_COUNT = threshold,
      SEED = seed\<rparr>"

subsection \<open>The session state machine in the specification's words\<close>

text \<open>
  Section 4.4 of the specification, to be compared with \<^const>\<open>check\<close>. The outcome of a
  submission is one of the tags below; \<open>InternalInconsistency\<close> is the outcome the
  specification gives any combination that no row of its table covers.
\<close>

datatype outcome =
  Success | Continue string | AlreadyFound | NotInVocabulary | NotInJumble
  | InternalInconsistency

text \<open>
  The decision table, rows in order, the first matching row deciding. The result is the
  matches sequence after the submission and the outcome.
\<close>

definition spec_submit ::
  "bool \<Rightarrow> bool \<Rightarrow> bool \<Rightarrow> string list \<Rightarrow> int \<Rightarrow> string \<Rightarrow> string list \<times> outcome" where
  "spec_submit in_jumble is_vocab already_matched matches target_count word =
     (if in_jumble \<and> is_vocab \<and> \<not> already_matched then
        (matches @ [word],
         if int (length (matches @ [word])) \<ge> target_count then Success else Continue word)
      else if already_matched then (matches, AlreadyFound)
      else if \<not> is_vocab \<and> \<not> already_matched then (matches, NotInVocabulary)
      else if \<not> in_jumble \<and> is_vocab \<and> \<not> already_matched then (matches, NotInJumble)
      else (matches, InternalInconsistency))"

text \<open>
  Section 6: the value each outcome becomes for the JSON layer, with the three messages
  of the specification; the internal inconsistency is no value but a failure.
\<close>

fun spec_response :: "string \<Rightarrow> string \<Rightarrow> outcome \<Rightarrow> error + json" where
  \<open>spec_response jumble word Success = Inr [(''status'', ''success'')]\<close>
| \<open>spec_response jumble word (Continue w) = Inr [(''status'', ''keep_going''), (''word'', w)]\<close>
| \<open>spec_response jumble word AlreadyFound =
     Inr [(''status'', ''error''), (''message'', ''You already found '' @ word)]\<close>
| \<open>spec_response jumble word NotInVocabulary =
     Inr [(''status'', ''error''), (''message'', word @ '' isn't in the list of words'')]\<close>
| \<open>spec_response jumble word NotInJumble =
     Inr [(''status'', ''error''),
          (''message'', ''"'' @ word @ ''" can't be made from the letters '' @ jumble)]\<close>
| \<open>spec_response jumble word InternalInconsistency = Inl AssertionError\<close>

text \<open>
  The states of section 4.4: a session is \<open>Complete\<close> when it has at least
  \<open>target_count\<close> matches, \<open>Active\<close> otherwise.
\<close>

definition complete :: "session \<Rightarrow> bool" where
  "complete s =
     (case (s_matches s, s_target_count s) of
        (Some ms, Some n) \<Rightarrow> int (length ms) \<ge> n
      | _ \<Rightarrow> False)"

text \<open>
  Step 1 of the transition, normalisation: surrounding whitespace removed, ASCII letters
  lowercased.
\<close>

definition is_space :: "char \<Rightarrow> bool" where
  "is_space c = (c \<in> set [CHR '' '', CHR 0x09, CHR 0x0A, CHR 0x0B, CHR 0x0C, CHR 0x0D])"

definition lower_char :: "char \<Rightarrow> char" where
  "lower_char c =
     (let n = (of_char c :: nat) in if 65 \<le> n \<and> n \<le> 90 then char_of (n + 32) else c)"

definition strip :: "string \<Rightarrow> string" where
  "strip w = rev (dropWhile is_space (rev (dropWhile is_space w)))"

definition spec_normalize :: "string \<Rightarrow> string" where
  "spec_normalize w = map lower_char (strip w)"

section \<open>Properties of the form handler\<close>

subsection \<open>The three message templates\<close>

lemma format_already_found:
  "format_str ''You already found {}'' [w] = ''You already found '' @ w"
  by simp

lemma format_not_in_list:
  "format_str ''{} isn't in the list of words'' [w] = w @ '' isn't in the list of words''"
  by simp

lemma format_cant_be_made:
  \<open>format_str ''"{}" can't be made from the letters {}'' [w, j] =
     ''"'' @ w @ ''" can't be made from the letters '' @ j\<close>
  by simp

subsection \<open>One request, by whether the session has its three keys\<close>

lemma check_keys_present:
  assumes "s_jumble s = Some jumble" and "s_target_count s = Some t"
    and "s_matches s = Some ms"
  shows \<open>check app text s =
     (if WORDS_has app text \<and> LetterBag_contains app jumble text \<and> text \<notin> set ms
      then (s\<lparr>s_matches := Some (ms @ [text])\<rparr>,
            Inr (if t \<le> int (length ms) + 1 then [(''status'', ''success'')]
                 else [(''status'', ''keep_going''), (''word'', text)]))
      else (s, Inr [(''status'', ''error''),
                    (''message'',
                     if text \<in> set ms then ''You already found '' @ text
                     else if \<not> WORDS_has app text then text @ '' isn't in the list of words''
                     else ''"'' @ text @ ''" can't be made from the letters '' @ jumble)]))\<close>
  using assms
  by (simp add: check_def Let_def format_already_found format_not_in_list format_cant_be_made
           del: format_str.simps)

lemma check_key_absent:
  assumes "s_jumble s = None \<or> s_target_count s = None \<or> s_matches s = None"
  shows "fst (check app text s) = s \<and> (\<exists>k. snd (check app text s) = Inl (KeyError k))"
  using assms by (auto simp: check_def Let_def split: option.splits)

subsection \<open>The decision table\<close>

text \<open>
  Claim C1. In a session that holds its three keys, \<^const>\<open>check\<close> decides every
  submitted word as the decision table of the specification does, first matching row
  first: a word that is in the jumble, in the vocabulary and not yet matched is appended
  to the matches, with the success status when the matches have reached the target count
  and the keep-going status carrying the word otherwise; failing that, a word already
  matched is rejected as already found; failing that, a word outside the vocabulary is
  rejected as not in the vocabulary; failing that, a word that the jumble cannot spell is
  rejected as not in the jumble.
\<close>

theorem check_decision_table:
  assumes "s_jumble s = Some jumble" and "s_target_count s = Some t"
    and "s_matches s = Some ms"
  shows "check app text s =
     (case spec_submit (LetterBag_contains app jumble text) (WORDS_has app text)
             (text \<in> set ms) ms t text of
        (ms', out) \<Rightarrow> (s\<lparr>s_matches := Some ms'\<rparr>, spec_response jumble text out))"
  using assms by (simp add: check_keys_present [OF assms] spec_submit_def)

theorem check_decision_table_witness:
  "check (spec_app [''cat'', ''cats'', ''act''] 2 None) ''act''
     \<lparr>s_jumble = Some ''tacs'', s_target_count = Some 2, s_matches = Some [''cat'']\<rparr> =
   (\<lparr>s_jumble = Some ''tacs'', s_target_count = Some 2, s_matches = Some [''cat'', ''act'']\<rparr>,
    Inr [(''status'', ''success'')])"
  using check_decision_table
    [of "\<lparr>s_jumble = Some ''tacs'', s_target_count = Some 2, s_matches = Some [''cat'']\<rparr>"
        "''tacs''" 2 "[''cat'']" "spec_app [''cat'', ''cats'', ''act''] 2 None" "''act''"]
  by (simp add: spec_app_def letterbag_contains_def vocab_has_def spec_submit_def)

subsection \<open>Rejections\<close>

text \<open>
  Claim C2. In a session that holds its three keys, a submission that is not accepted
  is answered by a value and raises nothing: the response has the status \<open>error\<close> and
  the session is as before. Its message is \<open>You already found {word}\<close> for a word already
  matched, \<open>{word} isn't in the list of words\<close> for a word outside the vocabulary, and
  \<open>"{word}" can't be made from the letters {jumble}\<close> for a word the jumble cannot spell.
\<close>

theorem check_rejections_returned:
  assumes "s_jumble s = Some jumble" and "s_target_count s = Some t"
    and "s_matches s = Some ms"
    and "\<not> (WORDS_has app text \<and> LetterBag_contains app jumble text \<and> text \<notin> set ms)"
  shows \<open>check app text s =
     (s, Inr [(''status'', ''error''),
              (''message'',
               if text \<in> set ms then ''You already found '' @ text
               else if \<not> WORDS_has app text then text @ '' isn't in the list of words''
               else ''"'' @ text @ ''" can't be made from the letters '' @ jumble)])\<close>
  using assms(4) by (simp add: check_keys_present [OF assms(1-3)])

theorem check_rejections_returned_witness:
  \<open>check (spec_app [''cat'', ''cats'', ''act'', ''catt''] 2 None) ''catt''
     \<lparr>s_jumble = Some ''tacs'', s_target_count = Some 2, s_matches = Some [''cat'']\<rparr> =
   (\<lparr>s_jumble = Some ''tacs'', s_target_count = Some 2, s_matches = Some [''cat'']\<rparr>,
    Inr [(''status'', ''error''),
         (''message'', ''"catt" can't be made from the letters tacs'')])\<close>
  using check_rejections_returned
    [of "\<lparr>s_jumble = Some ''tacs'', s_target_count = Some 2, s_matches = Some [''cat'']\<rparr>"
        "''tacs''" 2 "[''cat'']" "spec_app [''cat'', ''cats'', ''act'', ''catt''] 2 None"
        "''catt''"]
  by (simp add: spec_app_def letterbag_contains_def vocab_has_def)

subsection \<open>The last branch\<close>

text \<open>
  Claim C3. Whatever the collaborators answer, whatever the word and the session, one of
  the four branches before the final \<^verbatim>\<open>else\<close> is taken: \<^const>\<open>check\<close> never raises the
  \<^verbatim>\<open>AssertionError\<close> of line 116.
\<close>

theorem check_assertion_unreachable:
  "snd (check app text s) \<noteq> Inl AssertionError"
proof (cases "s_jumble s = None \<or> s_target_count s = None \<or> s_matches s = None")
  case True
  then obtain k where "snd (check app text s) = Inl (KeyError k)"
    using check_key_absent by blast
  then show ?thesis by simp
next
  case False
  then obtain jumble t ms where
    keys: "s_jumble s = Some jumble" "s_target_count s = Some t" "s_matches s = Some ms"
    by auto
  show ?thesis by (simp add: check_keys_present [OF keys])
qed

theorem check_assertion_unreachable_witness:
  "snd (check (spec_app [''cat'', ''cats'', ''act''] 2 None) ''dog''
          \<lparr>s_jumble = Some ''tacs'', s_target_count = Some 2, s_matches = Some [''cat'']\<rparr>)
   \<noteq> Inl AssertionError"
  using check_assertion_unreachable
    [of "spec_app [''cat'', ''cats'', ''act''] 2 None" "''dog''"
        "\<lparr>s_jumble = Some ''tacs'', s_target_count = Some 2, s_matches = Some [''cat'']\<rparr>"]
  by simp

subsection \<open>No normalisation of the submitted word\<close>

text \<open>
  Claim C4, as stated, fails. \<^const>\<open>check\<close> takes the request's text as it arrives
  (line 86) and never trims or lowercases it: with the vocabulary \<open>cat\<close>, \<open>cats\<close>,
  \<open>act\<close> and the jumble \<open>tacs\<close>, the submission \<open>Cat\<close> followed by a space is rejected as
  not in the list of words, while its trimmed, lowercased form \<open>cat\<close> is accepted.
\<close>

theorem check_normalize_counterexample:
  "check (spec_app [''cat'', ''cats'', ''act''] 2 None) ''Cat ''
     \<lparr>s_jumble = Some ''tacs'', s_target_count = Some 2, s_matches = Some []\<rparr>
   \<noteq> check (spec_app [''cat'', ''cats'', ''act''] 2 None) (spec_normalize ''Cat '')
     \<lparr>s_jumble = Some ''tacs'', s_target_count = Some 2, s_matches = Some []\<rparr>"
  by (simp add: check_def spec_app_def letterbag_contains_def vocab_has_def spec_normalize_def
        strip_def is_space_def lower_char_def Let_def)

lemma matches_after_request:
  assumes "s_matches s = Some ms"
  shows "s_matches (fst (check app text s)) = Some ms
       \<or> s_matches (fst (check app text s)) = Some (ms @ [text])"
proof (cases "s_jumble s = None \<or> s_target_count s = None")
  case True
  then show ?thesis using check_key_absent [of s app "text"] assms by auto
next
  case False
  then obtain jumble t where keys: "s_jumble s = Some jumble" "s_target_count s = Some t"
    by auto
  show ?thesis using assms by (simp add: check_keys_present [OF keys assms])
qed

text \<open>
  The trimmed, lowercased form of a word is no longer than the word, holds no capital
  letter, and ends in no whitespace when the word begins with none.
\<close>

lemma lower_char_code:
  "(of_char (lower_char c) :: nat) =
     (if 65 \<le> (of_char c :: nat) \<and> (of_char c :: nat) \<le> 90 then of_char c + 32 else of_char c)"
  by (simp add: lower_char_def Let_def)

lemma char_eq_code: "(c = d) = ((of_char c :: nat) = of_char d)"
  by simp

lemma is_space_code:
  "is_space c = ((of_char c :: nat) \<in> {32, 9, 10, 11, 12, 13})"
  by (simp add: is_space_def char_eq_code [of c "CHR '' ''"] char_eq_code [of c "CHR 0x09"]
        char_eq_code [of c "CHR 0x0A"] char_eq_code [of c "CHR 0x0B"]
        char_eq_code [of c "CHR 0x0C"] char_eq_code [of c "CHR 0x0D"])

lemma is_space_lower_char: "is_space (lower_char c) = is_space c"
  by (simp add: is_space_code lower_char_code)

lemma lower_char_not_Y: "lower_char c \<noteq> CHR ''Y''"
proof
  assume "lower_char c = CHR ''Y''"
  then have "(of_char (lower_char c) :: nat) = of_char (CHR ''Y'')" by simp
  then show False by (simp add: lower_char_code split: if_splits)
qed

lemma length_spec_normalize: "length (spec_normalize w) \<le> length w"
proof -
  have "length (dropWhile is_space (rev (dropWhile is_space w))) \<le> length (dropWhile is_space w)"
    using length_dropWhile_le [of is_space "rev (dropWhile is_space w)"] by simp
  also have "\<dots> \<le> length w" by (rule length_dropWhile_le)
  finally show ?thesis by (simp add: spec_normalize_def strip_def)
qed

lemma strip_unpadded_front:
  assumes "w \<noteq> []" and "\<not> is_space (hd w)"
  shows "strip w \<noteq> []" and "\<not> is_space (last (strip w))"
    and "\<exists>ws. w = strip w @ ws \<and> (\<forall>c\<in>set ws. is_space c)"
proof -
  from assms have front: "dropWhile is_space w = w"
    by (cases w) simp_all
  then have strip: "strip w = rev (dropWhile is_space (rev w))"
    by (simp add: strip_def)
  from assms have "hd w \<in> set (rev w)" by simp
  with assms(2) have nonempty: "dropWhile is_space (rev w) \<noteq> []"
    by auto
  then show "strip w \<noteq> []" by (simp add: strip)
  from nonempty have "\<not> is_space (hd (dropWhile is_space (rev w)))"
    by (rule hd_dropWhile)
  with nonempty show "\<not> is_space (last (strip w))"
    by (simp add: strip last_rev)
  have "w = rev (takeWhile is_space (rev w) @ dropWhile is_space (rev w))"
    by simp
  then have "w = strip w @ rev (takeWhile is_space (rev w))"
    by (simp only: rev_append strip)
  moreover have "\<forall>c\<in>set (rev (takeWhile is_space (rev w))). is_space c"
    by (auto dest: set_takeWhileD)
  ultimately show "\<exists>ws. w = strip w @ ws \<and> (\<forall>c\<in>set ws. is_space c)"
    by blast
qed

lemma found_is_not_normalized_prefix:
  "''You already found '' @ x \<noteq> spec_normalize w @ '' isn't in the list of words''"
proof (cases "spec_normalize w")
  case Nil
  then show ?thesis by simp
next
  case (Cons c cs)
  then have "c \<in> set (map lower_char (strip w))"
    by (metis list.set_intros(1) spec_normalize_def)
  then have "c \<noteq> CHR ''Y''"
    using lower_char_not_Y by auto
  with Cons show ?thesis by simp
qed

lemma normalized_found_is_longer:
  "''You already found '' @ spec_normalize w \<noteq> w @ '' isn't in the list of words''"
proof
  assume "''You already found '' @ spec_normalize w = w @ '' isn't in the list of words''"
  then have "length (''You already found '' @ spec_normalize w)
           = length (w @ '' isn't in the list of words'')"
    by (rule arg_cong)
  with length_spec_normalize [of w] show False by simp
qed

lemma normalized_not_in_list_is_shorter:
  \<open>spec_normalize w @ '' isn't in the list of words''
     \<noteq> ''"'' @ w @ ''" can't be made from the letters '' @ j\<close>
proof
  assume \<open>spec_normalize w @ '' isn't in the list of words''
     = ''"'' @ w @ ''" can't be made from the letters '' @ j\<close>
  then have \<open>length (spec_normalize w @ '' isn't in the list of words'')
     = length (''"'' @ w @ ''" can't be made from the letters '' @ j)\<close>
    by (rule arg_cong)
  with length_spec_normalize [of w] show False by simp
qed

lemma not_in_list_is_not_quoted_normalized:
  \<open>w @ '' isn't in the list of words''
     \<noteq> ''"'' @ spec_normalize w @ ''" can't be made from the letters '' @ j\<close>
proof
  assume eq: \<open>w @ '' isn't in the list of words''
     = ''"'' @ spec_normalize w @ ''" can't be made from the letters '' @ j\<close>
  show False
  proof (cases w)
    case Nil
    with eq show False by simp
  next
    case (Cons c cs)
    with eq have c: "c = CHR 0x22" by simp
    then have "\<not> is_space (hd w)" by (simp add: Cons is_space_def)
    with Cons have nonempty: "strip w \<noteq> []" and last: "\<not> is_space (last (strip w))"
      and "\<exists>ws. w = strip w @ ws \<and> (\<forall>c\<in>set ws. is_space c)"
      using strip_unpadded_front [of w] by simp_all
    then obtain ws where w: "w = strip w @ ws" and ws: "\<forall>c\<in>set ws. is_space c"
      by blast
    from nonempty obtain ys y where u: "strip w = ys @ [y]"
      by (meson rev_exhaust)
    let ?rest = \<open>''" can't be made from the letters '' @ j\<close>
    have "w @ '' isn't in the list of words''
        = (ys @ [y]) @ (ws @ '' isn't in the list of words'')"
      using w u by (metis append.assoc)
    moreover have "CHR 0x22 # spec_normalize w @ ?rest
        = (CHR 0x22 # map lower_char ys) @ (lower_char y # ?rest)"
      by (simp add: spec_normalize_def u)
    ultimately have "(ys @ [y]) @ (ws @ '' isn't in the list of words'')
        = (CHR 0x22 # map lower_char ys) @ (lower_char y # ?rest)"
      using eq by simp
    moreover have "length (ys @ [y]) = length (CHR 0x22 # map lower_char ys)"
      by simp
    ultimately have "ws @ '' isn't in the list of words'' = lower_char y # ?rest"
      by (meson append_eq_append_conv)
    then have "is_space (lower_char y)"
      using ws by (cases ws) (auto simp: is_space_def)
    with last u show False by (simp add: is_space_lower_char)
  qed
qed

text \<open>
  The three messages tell a word from its trimmed, lowercased form: whichever rejection
  each of the two meets, the messages differ when the words do.
\<close>

lemma char_of_eq_code: "(char_of (n :: nat) = c) = (n mod 256 = of_char c)"
  using char_eq_code [of "char_of n" c] by simp

lemma rejection_messages_differ:
  assumes "spec_normalize w \<noteq> w"
    and \<open>m = ''You already found '' @ w \<or> m = w @ '' isn't in the list of words''
       \<or> m = ''"'' @ w @ ''" can't be made from the letters '' @ j\<close>
    and \<open>m' = ''You already found '' @ spec_normalize w
       \<or> m' = spec_normalize w @ '' isn't in the list of words''
       \<or> m' = ''"'' @ spec_normalize w @ ''" can't be made from the letters '' @ j\<close>
  shows "m \<noteq> m'"
proof -
  note cross = found_is_not_normalized_prefix [of w w] normalized_found_is_longer [of w]
    normalized_not_in_list_is_shorter [of w j] not_in_list_is_not_quoted_normalized [of w j]
  from assms(2) show ?thesis
  proof (elim disjE)
    assume m: "m = ''You already found '' @ w"
    from assms(3) show ?thesis
      using assms(1) cross(1) by (elim disjE) (simp_all add: m)
  next
    assume m: "m = w @ '' isn't in the list of words''"
    from assms(3) show ?thesis
      using assms(1) cross(2,4) by (elim disjE) (auto simp: m)
  next
    assume m: \<open>m = ''"'' @ w @ ''" can't be made from the letters '' @ j\<close>
    from assms(3) show ?thesis
      using assms(1) cross(3) by (elim disjE) (auto simp: m)
  qed
qed

lemma check_rejected_shape:
  assumes "s_jumble s = Some jumble" and "s_target_count s = Some t"
    and "s_matches s = Some ms"
    and "\<not> (WORDS_has app x \<and> LetterBag_contains app jumble x \<and> x \<notin> set ms)"
  shows \<open>\<exists>m. check app x s = (s, Inr [(''status'', ''error''), (''message'', m)])
       \<and> (m = ''You already found '' @ x \<or> m = x @ '' isn't in the list of words''
          \<or> m = ''"'' @ x @ ''" can't be made from the letters '' @ jumble)\<close>
  using assms(4) by (auto simp: check_keys_present [OF assms(1-3)])

lemma check_accepted_shape:
  assumes "s_jumble s = Some jumble" and "s_target_count s = Some t"
    and "s_matches s = Some ms"
    and "WORDS_has app x \<and> LetterBag_contains app jumble x \<and> x \<notin> set ms"
  shows "s_matches (fst (check app x s)) = Some (ms @ [x])"
  using assms(4) by (simp add: check_keys_present [OF assms(1-3)])

lemma check_normalized_differs:
  assumes "s_jumble s = Some jumble" and "s_target_count s = Some t"
    and "s_matches s = Some ms"
    and "spec_normalize w \<noteq> w"
  shows "check app (spec_normalize w) s \<noteq> check app w s"
proof
  let ?n = "spec_normalize w"
  let ?acc = "\<lambda>x. WORDS_has app x \<and> LetterBag_contains app jumble x \<and> x \<notin> set ms"
  assume eq: "check app ?n s = check app w s"
  note keys = assms(1-3)
  show False
  proof (cases "?acc w")
    case True
    then have "s_matches (fst (check app w s)) = Some (ms @ [w])"
      by (rule check_accepted_shape [OF keys])
    moreover have "s_matches (fst (check app ?n s)) = Some ms
        \<or> s_matches (fst (check app ?n s)) = Some (ms @ [?n])"
      by (rule matches_after_request [OF assms(3)])
    ultimately show False using eq assms(4) by auto
  next
    case w_rejected: False
    show False
    proof (cases "?acc ?n")
      case True
      then have "s_matches (fst (check app ?n s)) = Some (ms @ [?n])"
        by (rule check_accepted_shape [OF keys])
      moreover have "s_matches (fst (check app w s)) = Some ms
          \<or> s_matches (fst (check app w s)) = Some (ms @ [w])"
        by (rule matches_after_request [OF assms(3)])
      ultimately show False using eq assms(4) by auto
    next
      case False
      from check_rejected_shape [OF keys w_rejected] obtain m where
        m: \<open>check app w s = (s, Inr [(''status'', ''error''), (''message'', m)])\<close>
          \<open>m = ''You already found '' @ w \<or> m = w @ '' isn't in the list of words''
             \<or> m = ''"'' @ w @ ''" can't be made from the letters '' @ jumble\<close>
        by blast
      from check_rejected_shape [OF keys False] obtain m' where
        m': \<open>check app ?n s = (s, Inr [(''status'', ''error''), (''message'', m')])\<close>
          \<open>m' = ''You already found '' @ ?n \<or> m' = ?n @ '' isn't in the list of words''
             \<or> m' = ''"'' @ ?n @ ''" can't be made from the letters '' @ jumble\<close>
        by blast
      from eq m(1) m'(1) have "m = m'" by simp
      with rejection_messages_differ [OF assms(4) m(2) m'(2)] show False by simp
    qed
  qed
qed

text \<open>
  Claim C4, amended. \<^const>\<open>check\<close> does not normalise the submitted word. In a session
  that holds its three keys, the in-jumble, in-vocabulary and already-matched checks are
  made on the word exactly as submitted, the word appended to the matches and the word
  named in the response are the word as submitted, and so the outcome for a word is the
  same as for its trimmed, lowercased form if and only if the word is already trimmed and
  lowercase.
\<close>

theorem check_word_as_submitted:
  assumes "s_jumble s = Some jumble" and "s_target_count s = Some t"
    and "s_matches s = Some ms"
  shows \<open>check app text s =
     (if WORDS_has app text \<and> LetterBag_contains app jumble text \<and> text \<notin> set ms
      then (s\<lparr>s_matches := Some (ms @ [text])\<rparr>,
            Inr (if t \<le> int (length (ms @ [text])) then [(''status'', ''success'')]
                 else [(''status'', ''keep_going''), (''word'', text)]))
      else (s, Inr [(''status'', ''error''),
                    (''message'',
                     if text \<in> set ms then ''You already found '' @ text
                     else if \<not> WORDS_has app text then text @ '' isn't in the list of words''
                     else ''"'' @ text @ ''" can't be made from the letters '' @ jumble)]))
   \<and> ((check app (spec_normalize text) s = check app text s) = (spec_normalize text = text))\<close>
proof -
  have "(check app (spec_normalize text) s = check app text s) = (spec_normalize text = text)"
    using check_normalized_differs [OF assms, of "text" app] by auto
  then show ?thesis by (simp add: check_keys_present [OF assms])
qed

theorem check_word_as_submitted_witness:
  \<open>check (spec_app [''cat'', ''cats'', ''act''] 2 None) ''Cat ''
     \<lparr>s_jumble = Some ''tacs'', s_target_count = Some 2, s_matches = Some []\<rparr>
     = (\<lparr>s_jumble = Some ''tacs'', s_target_count = Some 2, s_matches = Some []\<rparr>,
        Inr [(''status'', ''error''), (''message'', ''Cat  isn't in the list of words'')])
   \<and> check (spec_app [''cat'', ''cats'', ''act''] 2 None) (spec_normalize ''Cat '')
       \<lparr>s_jumble = Some ''tacs'', s_target_count = Some 2, s_matches = Some []\<rparr>
     \<noteq> check (spec_app [''cat'', ''cats'', ''act''] 2 None) ''Cat ''
       \<lparr>s_jumble = Some ''tacs'', s_target_count = Some 2, s_matches = Some []\<rparr>
   \<and> spec_normalize ''Cat '' = ''cat''\<close>
proof -
  let ?s = "\<lparr>s_jumble = Some ''tacs'', s_target_count = Some 2, s_matches = Some []\<rparr>"
  let ?app = "spec_app [''cat'', ''cats'', ''act''] 2 None"
  have norm: "spec_normalize ''Cat '' = ''cat''"
    by (simp add: spec_normalize_def strip_def is_space_def lower_char_def char_of_eq_code)
  have keys: "s_jumble ?s = Some ''tacs''" "s_target_count ?s = Some 2" "s_matches ?s = Some []"
    by simp_all
  note inst = check_word_as_submitted [OF keys, of ?app "''Cat ''"]
  from inst [THEN conjunct1] have \<open>check ?app ''Cat '' ?s =
      (?s, Inr [(''status'', ''error''), (''message'', ''Cat  isn't in the list of words'')])\<close>
    by (simp add: spec_app_def vocab_has_def)
  moreover from inst [THEN conjunct2]
  have "check ?app (spec_normalize ''Cat '') ?s \<noteq> check ?app ''Cat '' ?s"
    by (simp only: norm) simp
  ultimately show ?thesis using norm by blast
qed

subsection \<open>What one request changes\<close>

text \<open>
  Claim C6. A call of \<^const>\<open>check\<close> leaves the session's jumble and target count as they
  were, whatever the word, the session and the collaborators. It leaves the whole session
  as it was unless the submission is accepted; then the only change is that the word is
  appended to the matches, and the response is the success or the keep-going status.
\<close>

theorem check_frame:
  "s_jumble (fst (check app text s)) = s_jumble s
   \<and> s_target_count (fst (check app text s)) = s_target_count s
   \<and> (fst (check app text s) = s
      \<or> (\<exists>ms. s_matches s = Some ms
             \<and> fst (check app text s) = s\<lparr>s_matches := Some (ms @ [text])\<rparr>
             \<and> (snd (check app text s) = Inr [(''status'', ''success'')]
                \<or> snd (check app text s) = Inr [(''status'', ''keep_going''), (''word'', text)])))"
proof (cases "s_jumble s = None \<or> s_target_count s = None \<or> s_matches s = None")
  case True
  then have "fst (check app text s) = s"
    using check_key_absent by blast
  then show ?thesis by simp
next
  case False
  then obtain jumble t ms where
    keys: "s_jumble s = Some jumble" "s_target_count s = Some t" "s_matches s = Some ms"
    by auto
  show ?thesis using keys by (simp add: check_keys_present [OF keys])
qed

theorem check_frame_witness:
  "s_jumble (fst (check (spec_app [''cat'', ''cats'', ''act''] 2 None) ''cat''
      \<lparr>s_jumble = Some ''tacs'', s_target_count = Some 2, s_matches = Some []\<rparr>)) = Some ''tacs''
   \<and> s_target_count (fst (check (spec_app [''cat'', ''cats'', ''act''] 2 None) ''cat''
      \<lparr>s_jumble = Some ''tacs'', s_target_count = Some 2, s_matches = Some []\<rparr>)) = Some 2
   \<and> fst (check (spec_app [''cat'', ''cats'', ''act''] 2 None) ''cat''
      \<lparr>s_jumble = Some ''tacs'', s_target_count = Some 2, s_matches = Some []\<rparr>)
     = \<lparr>s_jumble = Some ''tacs'', s_target_count = Some 2, s_matches = Some [''cat'']\<rparr>"
  using check_frame
    [of "spec_app [''cat'', ''cats'', ''act''] 2 None" "''cat''"
        "\<lparr>s_jumble = Some ''tacs'', s_target_count = Some 2, s_matches = Some []\<rparr>"]
  by (simp add: check_keys_present spec_app_def letterbag_contains_def vocab_has_def)

subsection \<open>The complete state\<close>

lemma check_keeps_complete:
  assumes "complete s"
  shows "complete (fst (check app text s))
       \<and> s_target_count (fst (check app text s)) = s_target_count s
       \<and> (\<exists>ms more. s_matches s = Some ms
             \<and> s_matches (fst (check app text s)) = Some (ms @ more))"
proof -
  from assms obtain ms n where
    st: "s_matches s = Some ms" "s_target_count s = Some n" "n \<le> int (length ms)"
    by (auto simp: complete_def split: option.splits)
  show ?thesis
  proof (cases "s_jumble s")
    case None
    then have "fst (check app text s) = s" using check_key_absent by blast
    with assms st show ?thesis by simp
  next
    case (Some jumble)
    have "check app text s = (s, snd (check app text s))
        \<or> fst (check app text s) = s\<lparr>s_matches := Some (ms @ [text])\<rparr>"
      by (simp add: check_keys_present [OF Some st(2) st(1)])
    then show ?thesis
    proof
      assume "check app text s = (s, snd (check app text s))"
      then have "fst (check app text s) = s" by (metis fst_conv)
      with assms st show ?thesis by simp
    next
      assume "fst (check app text s) = s\<lparr>s_matches := Some (ms @ [text])\<rparr>"
      with st show ?thesis by (simp add: complete_def)
    qed
  qed
qed

text \<open>
  Claim C7. A session that is complete stays complete through every further sequence of
  submissions: the target count is unchanged and the matches only grow, the earlier
  matches remaining a prefix of the later ones.
\<close>

theorem complete_is_terminal:
  assumes "complete s"
  shows "complete (submit_all app texts s)
       \<and> s_target_count (submit_all app texts s) = s_target_count s
       \<and> (\<exists>ms more. s_matches s = Some ms
             \<and> s_matches (submit_all app texts s) = Some (ms @ more))"
  using assms
proof (induction texts arbitrary: s)
  case Nil
  then show ?case by (auto simp: complete_def split: option.splits)
next
  case (Cons w rest)
  let ?s1 = "fst (check app w s)"
  from check_keeps_complete [OF Cons.prems, of app w] obtain ms more where
    step: "complete ?s1" "s_target_count ?s1 = s_target_count s"
      "s_matches s = Some ms" "s_matches ?s1 = Some (ms @ more)"
    by blast
  from Cons.IH [OF step(1)] obtain more' where
    rest: "complete (submit_all app rest ?s1)"
      "s_target_count (submit_all app rest ?s1) = s_target_count ?s1"
      "s_matches (submit_all app rest ?s1) = Some ((ms @ more) @ more')"
    using step(4) by auto
  from rest step show ?case by simp
qed

theorem complete_is_terminal_witness:
  "complete \<lparr>s_jumble = Some ''tacs'', s_target_count = Some 1, s_matches = Some [''cat'']\<rparr>
   \<and> complete (submit_all (spec_app [''cat'', ''cats'', ''act''] 1 None) [''dog'', ''act'', ''cat'']
        \<lparr>s_jumble = Some ''tacs'', s_target_count = Some 1, s_matches = Some [''cat'']\<rparr>)"
proof -
  have start:
    "complete \<lparr>s_jumble = Some ''tacs'', s_target_count = Some 1, s_matches = Some [''cat'']\<rparr>"
    by (simp add: complete_def)
  from complete_is_terminal
    [OF start, of "spec_app [''cat'', ''cats'', ''act''] 1 None" "[''dog'', ''act'', ''cat'']"]
  show ?thesis using start by blast
qed

text \<open>
  Claim C10. In a session that is already complete, a word that the vocabulary has, that
  the jumble can spell and that is not yet matched is still accepted: it is appended to
  the matches, which may so exceed the target count, and the response is the success
  status.
\<close>

theorem check_accepts_when_complete:
  assumes "complete s" and "s_jumble s = Some jumble" and "s_matches s = Some ms"
    and "WORDS_has app text" and "LetterBag_contains app jumble text" and "text \<notin> set ms"
  shows "check app text s =
           (s\<lparr>s_matches := Some (ms @ [text])\<rparr>, Inr [(''status'', ''success'')])
       \<and> complete (fst (check app text s))"
proof -
  from assms(1,3) obtain n where
    st: "s_target_count s = Some n" "n \<le> int (length ms)"
    by (auto simp: complete_def split: option.splits)
  show ?thesis
    using assms(4-6) st by (simp add: check_keys_present [OF assms(2) st(1) assms(3)] complete_def)
qed

theorem check_accepts_when_complete_witness:
  "complete \<lparr>s_jumble = Some ''tacs'', s_target_count = Some 1, s_matches = Some [''cat'']\<rparr>
   \<and> check (spec_app [''cat'', ''cats'', ''act''] 1 None) ''act''
        \<lparr>s_jumble = Some ''tacs'', s_target_count = Some 1, s_matches = Some [''cat'']\<rparr>
     = (\<lparr>s_jumble = Some ''tacs'', s_target_count = Some 1, s_matches = Some [''cat'', ''act'']\<rparr>,
        Inr [(''status'', ''success'')])"
  using check_accepts_when_complete
    [of "\<lparr>s_jumble = Some ''tacs'', s_target_count = Some 1, s_matches = Some [''cat'']\<rparr>"
        "''tacs''" "[''cat'']" "spec_app [''cat'', ''cats'', ''act''] 1 None" "''act''"]
  by (simp add: complete_def spec_app_def letterbag_contains_def vocab_has_def)

section \<open>Properties of the page handler\<close>

subsection \<open>The seed handed to the generator\<close>

lemma seed_argument_zero: "seed_argument (Some 0) = seed_argument None"
  by simp

lemma index_seed_zero_is_absent:
  "index (app\<lparr>SEED := Some 0\<rparr>) entropy s = index (app\<lparr>SEED := None\<rparr>) entropy s"
  by (simp add: index_def)

lemma index_positive_seed_reproducible:
  assumes "SEED app = Some k" and "0 < k"
    and "\<forall>ws n e e'. jumbled app ws n (Some k) e = jumbled app ws n (Some k) e'"
  shows "index app e s = index app e' s"
proof -
  have "jumbled app ws n (Some k) e = jumbled app ws n (Some k) e'" for ws n
    using assms(3) by blast
  then show ?thesis using assms(1,2) by (simp add: index_def)
qed

lemma generate_seeded: "0 \<le> k \<Longrightarrow> generate ws n (Some k) e = generate ws n (Some k) e'"
  by (simp add: generate_def)

lemma generate_entropy_1: "generate [''cat'', ''act'', ''dog''] 2 None 1 = Inr ''attcca''"
  by (simp add: generate_def shuffle_def lcg_next_def Let_def)

lemma generate_entropy_2: "generate [''cat'', ''act'', ''dog''] 2 None 2 = Inr ''ttacac''"
  by (simp add: generate_def shuffle_def lcg_next_def Let_def)

text \<open>
  Claim C5 does not hold of the code for the seed \<open>0\<close>. A configured seed of \<open>0\<close> is a
  non-negative integer and line 36 keeps it, but \<^verbatim>\<open>not SEED\<close> at line 53 is true of it, so
  \<^const>\<open>index\<close> hands the generator no seed: two visits with the same word list and the
  same configuration get the jumbles \<open>attcca\<close> and \<open>ttacac\<close> from the generator of the
  specification, which differ with the ambient randomness.
\<close>

theorem index_seed_zero_not_reproducible:
  "module_SEED (Converts 0) = Inr (Some 0)
   \<and> s_jumble (fst (index (spec_app [''cat'', ''act'', ''dog''] 2 (Some 0)) 1
        \<lparr>s_jumble = None, s_target_count = None, s_matches = None\<rparr>)) = Some ''attcca''
   \<and> s_jumble (fst (index (spec_app [''cat'', ''act'', ''dog''] 2 (Some 0)) 2
        \<lparr>s_jumble = None, s_target_count = None, s_matches = None\<rparr>)) = Some ''ttacac''"
  by (simp add: index_def spec_app_def generate_entropy_1 generate_entropy_2)

subsection \<open>A new game\<close>

lemma index_raises_from_jumbled:
  assumes "jumbled app (WORDS_as_list app)
             (min (int (length (WORDS_as_list app))) (SUCCESS_AT_COUNT app))
             (seed_argument (SEED app)) entropy = Inl e"
  shows "index app entropy s =
           (s\<lparr>s_target_count :=
                 Some (min (int (length (WORDS_as_list app))) (SUCCESS_AT_COUNT app))\<rparr>, Inl e)"
  using assms by (simp add: index_def Let_def)

lemma index_after_jumbled:
  assumes "jumbled app (WORDS_as_list app)
             (min (int (length (WORDS_as_list app))) (SUCCESS_AT_COUNT app))
             (seed_argument (SEED app)) entropy = Inr jumble"
  shows "index app entropy s =
           (s\<lparr>s_target_count :=
                 Some (min (int (length (WORDS_as_list app))) (SUCCESS_AT_COUNT app)),
               s_jumble := Some jumble, s_matches := Some []\<rparr>,
            if 0 < min (int (length (WORDS_as_list app))) (SUCCESS_AT_COUNT app)
            then Inr ''vocab.html'' else Inl AssertionError)"
  using assms by (simp add: index_def Let_def)

lemma generate_cat_cats_act:
  "generate [''cat'', ''cats'', ''act''] 2 None 1 = Inr ''asttcac''"
  by (simp add: generate_def shuffle_def lcg_next_def Let_def)

text \<open>
  Claim C8. \<^const>\<open>index\<close> sets the session's target count to the minimum of the length
  of the vocabulary's word list and the configured success threshold, so the target is at
  most the size of the vocabulary. Whenever \<^const>\<open>index\<close> returns its page, that is,
  whenever a new game starts, this value is positive: line 57 asserts it. And it does
  return its page whenever the generator returns a jumble and the minimum is positive.
\<close>

theorem index_target_count:
  "s_target_count (fst (index app entropy s)) =
     Some (min (int (length (WORDS_as_list app))) (SUCCESS_AT_COUNT app))
   \<and> (snd (index app entropy s) = Inr page \<longrightarrow>
        0 < min (int (length (WORDS_as_list app))) (SUCCESS_AT_COUNT app)
        \<and> min (int (length (WORDS_as_list app))) (SUCCESS_AT_COUNT app)
            \<le> int (length (WORDS_as_list app)))
   \<and> ((\<exists>jumble. jumbled app (WORDS_as_list app)
                    (min (int (length (WORDS_as_list app))) (SUCCESS_AT_COUNT app))
                    (seed_argument (SEED app)) entropy = Inr jumble)
        \<and> 0 < min (int (length (WORDS_as_list app))) (SUCCESS_AT_COUNT app)
        \<longrightarrow> snd (index app entropy s) = Inr ''vocab.html'')"
proof (cases "jumbled app (WORDS_as_list app)
               (min (int (length (WORDS_as_list app))) (SUCCESS_AT_COUNT app))
               (seed_argument (SEED app)) entropy")
  case (Inl e)
  show ?thesis by (simp add: index_raises_from_jumbled [OF Inl] Inl)
next
  case (Inr jumble)
  show ?thesis by (simp add: index_after_jumbled [OF Inr] Inr)
qed

theorem index_target_count_witness:
  "index (spec_app [''cat'', ''cats'', ''act''] 2 None) 1
     \<lparr>s_jumble = Some ''old'', s_target_count = Some 9, s_matches = Some [''x'']\<rparr>
     = (\<lparr>s_jumble = Some ''asttcac'', s_target_count = Some 2, s_matches = Some []\<rparr>,
        Inr ''vocab.html'')
   \<and> s_target_count (fst (index (spec_app [''cat'', ''cats'', ''act''] 2 None) 1
        \<lparr>s_jumble = Some ''old'', s_target_count = Some 9, s_matches = Some [''x'']\<rparr>))
     = Some (min (int (length [''cat'', ''cats'', ''act''])) 2)
   \<and> (0::int) < min (int (length [''cat'', ''cats'', ''act''])) 2"
  using index_target_count
    [of "spec_app [''cat'', ''cats'', ''act''] 2 None" 1
        "\<lparr>s_jumble = Some ''old'', s_target_count = Some 9, s_matches = Some [''x'']\<rparr>"
        "''vocab.html''"]
  by (simp add: index_def spec_app_def generate_cat_cats_act)

text \<open>
  Claim C9. Whenever \<^const>\<open>index\<close> returns its page, the session it leaves has an empty
  matches sequence and does not depend on the session before the visit; visiting the page
  again leaves the matches empty again.
\<close>

theorem index_resets_matches:
  assumes "snd (index app entropy s) = Inr page"
  shows "s_matches (fst (index app entropy s)) = Some []
       \<and> fst (index app entropy s') = fst (index app entropy s)
       \<and> (snd (index app entropy' (fst (index app entropy s))) = Inr page' \<longrightarrow>
            s_matches (fst (index app entropy' (fst (index app entropy s)))) = Some [])"
proof -
  let ?n = "min (int (length (WORDS_as_list app))) (SUCCESS_AT_COUNT app)"
  have returned: "s_matches (fst (index app e t)) = Some []"
    if "snd (index app e t) = Inr p" for e t p
  proof (cases "jumbled app (WORDS_as_list app) ?n (seed_argument (SEED app)) e")
    case (Inl err)
    with that show ?thesis by (simp add: index_raises_from_jumbled [OF Inl])
  next
    case (Inr jumble)
    show ?thesis by (simp add: index_after_jumbled [OF Inr])
  qed
  have same: "fst (index app entropy s') = fst (index app entropy s)"
  proof (cases "jumbled app (WORDS_as_list app) ?n (seed_argument (SEED app)) entropy")
    case (Inl err)
    with assms show ?thesis by (simp add: index_raises_from_jumbled [OF Inl])
  next
    case (Inr jumble)
    show ?thesis by (simp add: index_after_jumbled [OF Inr])
  qed
  from returned [OF assms] same returned show ?thesis by blast
qed

theorem index_resets_matches_witness:
  "snd (index (spec_app [''cat'', ''cats'', ''act''] 2 None) 1
     \<lparr>s_jumble = Some ''old'', s_target_count = Some 9, s_matches = Some [''x'']\<rparr>)
     = Inr ''vocab.html''
   \<and> s_matches (fst (index (spec_app [''cat'', ''cats'', ''act''] 2 None) 1
     \<lparr>s_jumble = Some ''old'', s_target_count = Some 9, s_matches = Some [''x'']\<rparr>))
     = Some []"
proof -
  have returns: "snd (index (spec_app [''cat'', ''cats'', ''act''] 2 None) 1
     \<lparr>s_jumble = Some ''old'', s_target_count = Some 9, s_matches = Some [''x'']\<rparr>)
     = Inr ''vocab.html''"
    by (simp add: index_def spec_app_def generate_cat_cats_act)
  from index_resets_matches [OF returns] returns show ?thesis by blast
qed

end
